theory Spec2Isabelle
  imports Complex_Main
begin

section \<open>Conventions of the embedding\<close>

text \<open>
  The module \<^verbatim>\<open>vsapy/vsapy.py\<close> is embedded function by function.
  \<^item> Python's unbounded integers are \<^typ>\<open>int\<close>; \<^verbatim>\<open>%\<close> and \<^verbatim>\<open>//\<close> with a positive
    divisor are \<open>mod\<close> and \<open>div\<close> (both floor).
  \<^item> An exception is a value: a function that can raise returns \<open>error + 'a\<close>.
  \<^item> Floats in \<^verbatim>\<open>get_hd_threshold\<close>: a float that is in range is the real number it stands
    for, and the sums and the quotient are not rounded; the two exceptions of its
    division (an integer too large for a float, a zero divisor) are branches of the
    model.
  \<^item> Floats in \<^verbatim>\<open>Real2Binary.to_bin\<close>: IEEE 754 binary64 values (\<open>fval\<close>), every
    operation rounded to nearest, ties to even (\<open>round64\<close>), with overflow to an
    infinity, underflow to zero and nan. The output of \<^verbatim>\<open>to_bin\<close> is the sign of a
    rounded value, so the rounding is part of what it computes.
  \<^item> Functions of numpy and scipy are modelled by what their documentation says they
    compute. The random generator of numpy, the order in which \<^verbatim>\<open>np.sum\<close> adds and the
    byte that a cast of nan stores are parameters.
  \<^item> The modules \<^verbatim>\<open>vsatype\<close>, \<^verbatim>\<open>bsc\<close>, \<^verbatim>\<open>tern\<close>, \<^verbatim>\<open>ternzero\<close> and \<^verbatim>\<open>hrr\<close> that
    \<^verbatim>\<open>vsapy.py\<close> imports are not among the sources. What \<^verbatim>\<open>vsapy.py\<close> uses of them is
    either a parameter of the embedded function or a definition marked
    ``Modelled from the spec''.
\<close>

datatype error =
  ValueError | IndexError | OperandMismatch | OverflowError | ZeroDivisionError

section \<open>Capacity utility: \<^verbatim>\<open>get_hd_threshold\<close>\<close>

text \<open>
  \<^verbatim>\<open>scipy.special.comb(N, k)\<close> (the default, non-exact variant): the binomial coefficient as
  a float, and 0 outside \<open>0 \<le> k \<le> N\<close>.
\<close>

definition scm_comb :: "int \<Rightarrow> int \<Rightarrow> real" where
  "scm_comb N k = (if 0 \<le> k \<and> k \<le> N then real (nat N choose nat k) else 0)"

text \<open>
  \<^verbatim>\<open>
  if num_vecs == 1:
      return 1.0
  if num_vecs % 2 > 0:
      num_vecs -= 1
  P = 0
  for j in range(num_vecs // 2, num_vecs + 1):
      P = P + scm.comb(num_vecs, j)
  hd = 1.0 - P / 2 ** num_vecs
  return hd
  \<close>
  The loop over \<^verbatim>\<open>range(a, b + 1)\<close> is a left fold over the integers \<open>[a..b]\<close>. The
  division \<^verbatim>\<open>P / 2 ** num_vecs\<close> has three cases, \<open>n\<close> being the adjusted count:
  \<^item> \<open>n \<ge> 1024\<close>: \<^verbatim>\<open>2 ** n\<close> is a Python integer of at least \<open>2 ^ 1024\<close>, which no float
    holds; dividing the float \<open>P\<close> by it raises OverflowError.
  \<^item> \<open>n \<le> -1075\<close>: the loop is empty, \<open>P\<close> is the integer 0, and \<^verbatim>\<open>2 ** n\<close> is the float
    \<open>0.0\<close> (the power underflows); \<^verbatim>\<open>0 / 0.0\<close> raises ZeroDivisionError.
  \<^item> otherwise \<^verbatim>\<open>2 ** n\<close> is the power of two \<open>2 powi n\<close>, an integer or a float.
\<close>

definition get_hd_threshold :: "int \<Rightarrow> error + real" where
  "get_hd_threshold num_vecs =
     (if num_vecs = 1 then Inr 1.0
      else let n = (if num_vecs mod 2 > 0 then num_vecs - 1 else num_vecs);
               P = foldl (\<lambda>P j. P + scm_comb n j) 0 [n div 2..n]
           in if 1024 \<le> n then Inl OverflowError
              else if n \<le> - 1075 then Inl ZeroDivisionError
              else Inr (1.0 - P / 2 powi n))"

section \<open>Tagged vectors\<close>

text \<open>The enumeration \<^verbatim>\<open>VsaType\<close>, with the four members the spec lists.\<close>

datatype VsaType = BSC | Tern | TernZero | HRR

text \<open>
  Modelled from the spec: the class \<^verbatim>\<open>VsaBase\<close> of module \<^verbatim>\<open>vsatype\<close> is not among the
  sources. It is the VsaVector of the spec's data model: an array (a numpy array in the
  source, the field \<open>elems\<close> here) tagged with its discriminant (the attribute
  \<^verbatim>\<open>vsa_type\<close>). The array type is a parameter: \<open>int list\<close> for the integer vectors that
  \<^verbatim>\<open>to_vsa_type\<close> computes on.
\<close>

record 'd VsaBase =
  vsa_type :: VsaType
  elems :: 'd

text \<open>
  Modelled from the spec: the constructor call \<^verbatim>\<open>VsaBase(input_array, vsa_type)\<close> tags the
  array with the discriminant. No check of the element domain is modelled: the source
  calls the constructor on sums of vectors, whose elements leave the domain.
\<close>

definition new_VsaBase :: "'d \<Rightarrow> VsaType \<Rightarrow> 'd VsaBase" where
  "new_VsaBase input_array t = \<lparr>vsa_type = t, elems = input_array\<rparr>"

text \<open>
  Modelled from the spec: the attribute \<^verbatim>\<open>vsatype\<close>, which the first test of
  \<^verbatim>\<open>to_vsa_type\<close> reads (\<^verbatim>\<open>sv.vsatype == vsa_type\<close>) where every other line reads
  \<^verbatim>\<open>vsa_type\<close>. The class that would declare it is not among the sources; the spec's
  vector has one discriminant, so the attribute is taken to read that tag.
\<close>

definition vsatype :: "'d VsaBase \<Rightarrow> VsaType" where
  "vsatype sv = vsa_type sv"

subsection \<open>numpy on integer arrays\<close>

text \<open>The masked assignment \<^verbatim>\<open>v[cond(v)] = c\<close>.\<close>

definition set_where :: "('a \<Rightarrow> bool) \<Rightarrow> 'a \<Rightarrow> 'a list \<Rightarrow> 'a list" where
  "set_where sel c v = map (\<lambda>x. if sel x then c else x) v"

text \<open>
  \<^verbatim>\<open>v.astype('uint8')\<close> and \<^verbatim>\<open>v.astype('int8')\<close> on an integer array: the value modulo
  \<open>2 ^ 8\<close>, read as unsigned or as two's complement.
\<close>

definition astype_uint8 :: "int list \<Rightarrow> int list" where
  "astype_uint8 v = map (\<lambda>x. x mod 256) v"

definition astype_int8 :: "int list \<Rightarrow> int list" where
  "astype_int8 v = map (\<lambda>x. (x + 128) mod 256 - 128) v"

subsection \<open>\<^verbatim>\<open>to_vsa_type\<close>\<close>

text \<open>
  \<^verbatim>\<open>
  if sv.vsatype == vsa_type:
      return sv
  v = sv.copy()
  if sv.vsa_type == VsaType.TernZero:
      v.vsa_type = VsaType.Tern
      v = v.reset_zeros_normalize(v)
      if vsa_type == VsaType.Tern:
          return VsaBase(v, vsa_type)
      elif vsa_type == VsaType.BSC:
          v[v == -1] = 0
          v.vsa_type = VsaType.BSC
          return VsaBase(v, vsa_type)
      else:
          raise ValueError
  if sv.vsa_type == VsaType.Tern:
      if vsa_type == VsaType.TernZero:
          return VsaBase(v, vsa_type)
      elif vsa_type == VsaType.BSC:
          v[v == -1] = 0
          v = v.astype('uint8')
          return VsaBase(v, vsa_type)
      else:
          raise ValueError
  if sv.vsa_type == VsaType.BSC:
      if vsa_type == VsaType.Tern or vsa_type == VsaType.TernZero:
          v = v.astype('int8')
          v[v == 0] = -1
          return VsaBase(v, vsa_type)
  raise ValueError
  \<close>
  The method \<^verbatim>\<open>reset_zeros_normalize\<close> (module \<^verbatim>\<open>tern\<close>, not among the sources; it draws
  random signs) is the first parameter. The parameter \<^verbatim>\<open>vsa_type\<close> of the source is
  \<open>vsa_type'\<close>, since \<open>vsa_type\<close> is the field.
\<close>

definition to_vsa_type ::
  "(int list VsaBase \<Rightarrow> int list VsaBase) \<Rightarrow> int list VsaBase \<Rightarrow> VsaType
     \<Rightarrow> error + int list VsaBase" where
  "to_vsa_type reset_zeros_normalize sv vsa_type' =
     (if vsatype sv = vsa_type' then Inr sv
      else let v = sv in
        if vsa_type sv = TernZero then
          (let v = reset_zeros_normalize (v\<lparr>vsa_type := Tern\<rparr>) in
           if vsa_type' = Tern then Inr (new_VsaBase (elems v) vsa_type')
           else if vsa_type' = BSC then
             Inr (new_VsaBase (set_where (\<lambda>x. x = - 1) 0 (elems v)) vsa_type')
           else Inl ValueError)
        else if vsa_type sv = Tern then
          (if vsa_type' = TernZero then Inr (new_VsaBase (elems v) vsa_type')
           else if vsa_type' = BSC then
             Inr (new_VsaBase (astype_uint8 (set_where (\<lambda>x. x = - 1) 0 (elems v))) vsa_type')
           else Inl ValueError)
        else if vsa_type sv = BSC \<and> (vsa_type' = Tern \<or> vsa_type' = TernZero) then
          Inr (new_VsaBase (set_where (\<lambda>x. x = 0) (- 1) (astype_int8 (elems v))) vsa_type')
        else Inl ValueError)"

subsection \<open>\<^verbatim>\<open>sum\<close>\<close>

text \<open>
  \<^verbatim>\<open>
  def sum(ndarray, *args, **kwargs):
      return VsaBase(np.sum(ndarray, *args, **kwargs), vsa_type=ndarray[0].vsa_type)
  \<close>
  The arguments of the call are evaluated from left to right: numpy's sum first (it may
  raise), then \<^verbatim>\<open>ndarray[0]\<close>, which raises IndexError on the empty sequence. numpy's sum
  with the caller's \<^verbatim>\<open>*args, **kwargs\<close> is the parameter \<open>np_sum\<close>. The function is
  \<open>sum_vsa\<close> here, \<open>sum\<close> being a constant of HOL.
\<close>

definition sum_vsa :: "('d list \<Rightarrow> error + 'r) \<Rightarrow> 'd VsaBase list \<Rightarrow> error + 'r VsaBase" where
  "sum_vsa np_sum ndarray =
     (case np_sum (map elems ndarray) of
        Inl e \<Rightarrow> Inl e
      | Inr s \<Rightarrow>
          (case ndarray of
             [] \<Rightarrow> Inl IndexError
           | first # _ \<Rightarrow> Inr (new_VsaBase s (vsa_type first))))"

text \<open>
  \<^verbatim>\<open>np.sum(rows, axis=0)\<close> on integer rows: the sum of the rows, element by element, and
  ValueError when the rows differ in length. On no rows numpy returns the scalar zero,
  which \<open>sum_vsa\<close> never returns (the index fails next); the empty list stands for it.
\<close>

fun np_sum_axis0 :: "int list list \<Rightarrow> error + int list" where
  "np_sum_axis0 [] = Inr []"
| "np_sum_axis0 [row] = Inr row"
| "np_sum_axis0 (row # rows) =
     (case np_sum_axis0 rows of
        Inl e \<Rightarrow> Inl e
      | Inr acc \<Rightarrow> if length row = length acc then Inr (map2 (+) row acc) else Inl ValueError)"

subsection \<open>\<^verbatim>\<open>bind\<close>\<close>






section \<open>The projector \<^verbatim>\<open>Real2Binary\<close>\<close>

text \<open>
  The object holds the matrix \<^verbatim>\<open>self.mapper\<close>: its rows, and the second component of its
  numpy shape (the number of columns, which the rows alone do not give when there is
  no row).
\<close>

record Real2Binary =
  mapper :: "nat list list"
  mapper_cols :: nat




subsection \<open>float64 arithmetic\<close>

text \<open>
  A float64 value: a finite value (the real number it holds), an infinity or nan. The
  two zeros are one value \<open>Fin 0\<close>: both compare equal to \<open>0.0\<close>, and \<^verbatim>\<open>to_bin\<close> divides by
  a square root only, which is never the negative zero.
\<close>

datatype fval = Fin real | PInf | NInf | NaN

text \<open>Rounding a real to the nearest integer, a tie to the even one.\<close>

definition rne :: "real \<Rightarrow> int" where
  "rne r = (let f = \<lfloor>r\<rfloor>; d = r - of_int f
            in if d < 1 / 2 then f else if 1 / 2 < d then f + 1
               else if even f then f else f + 1)"

text \<open>
  The spacing of the float64 grid at \<open>x\<close>: \<open>2 ^ (e - 52)\<close> for the exponent
  \<open>e = \<lfloor>log\<^sub>2 \<bar>x\<bar>\<rfloor>\<close>, and \<open>2 ^ -1074\<close> in the subnormal range below \<open>2 ^ -1022\<close>.
\<close>

definition ulp64 :: "real \<Rightarrow> real" where
  "ulp64 x = 2 powi (max \<lfloor>log 2 \<bar>x\<bar>\<rfloor> (- 1022) - 52)"

text \<open>
  The float64 nearest to a real \<open>x\<close>, a tie to the even mantissa: zero up to half of
  the least subnormal \<open>2 ^ -1074\<close>, an infinity when the rounded value reaches
  \<open>2 ^ 1024\<close>.
\<close>

definition round64 :: "real \<Rightarrow> fval" where
  "round64 x =
     (if \<bar>x\<bar> \<le> 2 powi (- 1075) then Fin 0
      else let y = of_int (rne (\<bar>x\<bar> / ulp64 x)) * ulp64 x
           in if 2 ^ 1024 \<le> y then (if 0 < x then PInf else NInf) else Fin (sgn x * y))"

text \<open>
  The operations of IEEE 754 on these values: the exact result rounded, and the
  standard results at the infinities and nan.
\<close>

fun fneg :: "fval \<Rightarrow> fval" where
  "fneg (Fin x) = Fin (- x)"
| "fneg PInf = NInf"
| "fneg NInf = PInf"
| "fneg NaN = NaN"

fun fadd :: "fval \<Rightarrow> fval \<Rightarrow> fval" where
  "fadd (Fin a) (Fin b) = round64 (a + b)"
| "fadd (Fin a) PInf = PInf"
| "fadd (Fin a) NInf = NInf"
| "fadd PInf (Fin b) = PInf"
| "fadd PInf PInf = PInf"
| "fadd PInf NInf = NaN"
| "fadd NInf (Fin b) = NInf"
| "fadd NInf PInf = NaN"
| "fadd NInf NInf = NInf"
| "fadd NaN y = NaN"
| "fadd x NaN = NaN"

definition fsub :: "fval \<Rightarrow> fval \<Rightarrow> fval" where
  "fsub x y = fadd x (fneg y)"

text \<open>The infinity with the sign of \<open>a\<close>, and nan at \<open>a = 0\<close> (\<open>0 * inf\<close>, \<open>0 / 0\<close>).\<close>

definition inf_of_sign :: "real \<Rightarrow> fval" where
  "inf_of_sign a = (if 0 < a then PInf else if a < 0 then NInf else NaN)"

fun fmul :: "fval \<Rightarrow> fval \<Rightarrow> fval" where
  "fmul (Fin a) (Fin b) = round64 (a * b)"
| "fmul (Fin a) PInf = inf_of_sign a"
| "fmul (Fin a) NInf = inf_of_sign (- a)"
| "fmul PInf (Fin b) = inf_of_sign b"
| "fmul NInf (Fin b) = inf_of_sign (- b)"
| "fmul PInf PInf = PInf"
| "fmul PInf NInf = NInf"
| "fmul NInf PInf = NInf"
| "fmul NInf NInf = PInf"
| "fmul NaN y = NaN"
| "fmul x NaN = NaN"

text \<open>
  numpy's division of float arrays raises nothing at a zero divisor: it warns, and the
  quotient is an infinity, or nan for \<open>0 / 0\<close>. The zero divisor is the positive zero.
\<close>

fun fdiv :: "fval \<Rightarrow> fval \<Rightarrow> fval" where
  "fdiv (Fin a) (Fin b) = (if b \<noteq> 0 then round64 (a / b) else inf_of_sign a)"
| "fdiv (Fin a) PInf = Fin 0"
| "fdiv (Fin a) NInf = Fin 0"
| "fdiv PInf (Fin b) = (if 0 \<le> b then PInf else NInf)"
| "fdiv NInf (Fin b) = (if 0 \<le> b then NInf else PInf)"
| "fdiv PInf PInf = NaN"
| "fdiv PInf NInf = NaN"
| "fdiv NInf PInf = NaN"
| "fdiv NInf NInf = NaN"
| "fdiv NaN y = NaN"
| "fdiv x NaN = NaN"

text \<open>
  \<^verbatim>\<open>math.sqrt\<close>: the rounded square root; ValueError on a negative argument.
\<close>

fun math_sqrt :: "fval \<Rightarrow> error + fval" where
  "math_sqrt (Fin x) = (if x < 0 then Inl ValueError else Inr (round64 (sqrt x)))"
| "math_sqrt PInf = Inr PInf"
| "math_sqrt NInf = Inl ValueError"
| "math_sqrt NaN = Inr NaN"

text \<open>The comparisons \<^verbatim>\<open>ZZ >= 0.0\<close> and \<^verbatim>\<open>ZZ < 0.0\<close>; both are false at nan.\<close>

fun ge_zero :: "fval \<Rightarrow> bool" where
  "ge_zero (Fin x) = (0 \<le> x)"
| "ge_zero PInf = True"
| "ge_zero NInf = False"
| "ge_zero NaN = False"

fun lt_zero :: "fval \<Rightarrow> bool" where
  "lt_zero (Fin x) = (x < 0)"
| "lt_zero PInf = False"
| "lt_zero NInf = True"
| "lt_zero NaN = False"

text \<open>
  One element of \<^verbatim>\<open>ZZ.astype('uint8')\<close>: a value above -1 and below 256 is truncated
  towards zero. For nan, an infinity or a value out of that range numpy raises
  nothing (it warns) and stores a byte that the C cast leaves undefined: the parameter
  \<open>undef\<close>.
\<close>

fun float_astype_uint8 :: "nat \<Rightarrow> fval \<Rightarrow> nat" where
  "float_astype_uint8 undef (Fin x) = (if - 1 < x \<and> x < 256 then nat \<lfloor>x\<rfloor> else undef)"
| "float_astype_uint8 undef PInf = undef"
| "float_astype_uint8 undef NInf = undef"
| "float_astype_uint8 undef NaN = undef"

text \<open>
  \<^verbatim>\<open>np.sum\<close> on an array of fewer than 8 floats: the elements are added one after the
  other, from zero. For longer arrays numpy adds in an order of its own (pairwise), so
  \<^verbatim>\<open>np.sum\<close> is a parameter of \<^verbatim>\<open>to_bin\<close> below, and \<open>seq_sum\<close> is its instance on the short
  vectors of the closed theorems.
\<close>

definition seq_sum :: "fval list \<Rightarrow> fval" where
  "seq_sum xs = foldl fadd (Fin 0) xs"

text \<open>
  One row of \<^verbatim>\<open>self.mapper * v\<close>: the entries of the mapper are converted to floats
  (exactly) and multiplied. numpy broadcasts the shapes \<open>(bdim, rdim)\<close> and \<open>(n)\<close> when
  \<open>rdim = n\<close>, \<open>rdim = 1\<close> or \<open>n = 1\<close>, and raises ValueError otherwise.
\<close>

definition broadcastable :: "nat \<Rightarrow> nat \<Rightarrow> bool" where
  "broadcastable r n = (r = n \<or> r = 1 \<or> n = 1)"

definition np_mul_row :: "nat list \<Rightarrow> fval list \<Rightarrow> fval list" where
  "np_mul_row row v =
     (if length row = length v then map2 (\<lambda>m x. fmul (Fin (real m)) x) row v
      else if length v = 1 then map (\<lambda>m. fmul (Fin (real m)) (hd v)) row
      else map (\<lambda>x. fmul (Fin (real (hd row))) x) v)"

subsection \<open>\<^verbatim>\<open>to_bin\<close>\<close>

text \<open>
  \<^verbatim>\<open>
  Exp_V = 0.5 * np.sum(v)
  Var_V = math.sqrt(0.25 * np.sum(v * v))
  ZZ = (np.sum(self.mapper * v, axis=1) - Exp_V) / Var_V
  ZZ[ZZ >= 0.0] = 1
  ZZ[ZZ < 0.0] = 0
  return ZZ.astype('uint8')
  \<close>
  The two locals are functions of \<open>v\<close> and of numpy's sum. \<^verbatim>\<open>math.sqrt\<close> is the one call
  that can raise before the product \<^verbatim>\<open>self.mapper * v\<close>, which raises on shapes that do
  not broadcast. The method is \<open>to_bin_with\<close> at the division of numpy: the source has
  one \<^verbatim>\<open>/\<close>, and \<open>to_bin_with\<close> takes the operator that stands there as its first
  argument, so that a theorem can say where the method divides.
\<close>

definition Exp_V :: "(fval list \<Rightarrow> fval) \<Rightarrow> fval list \<Rightarrow> fval" where
  "Exp_V np_sum v = fmul (Fin 0.5) (np_sum v)"

definition Var_V :: "(fval list \<Rightarrow> fval) \<Rightarrow> fval list \<Rightarrow> error + fval" where
  "Var_V np_sum v = math_sqrt (fmul (Fin 0.25) (np_sum (map2 fmul v v)))"

definition to_bin_with ::
  "(fval \<Rightarrow> fval \<Rightarrow> fval) \<Rightarrow> (fval list \<Rightarrow> fval) \<Rightarrow> nat \<Rightarrow> Real2Binary \<Rightarrow> fval list
     \<Rightarrow> error + nat list" where
  "to_bin_with division np_sum undef self v =
     (let E = Exp_V np_sum v
      in case Var_V np_sum v of
           Inl e \<Rightarrow> Inl e
         | Inr S \<Rightarrow>
             if \<not> broadcastable (mapper_cols self) (length v) then Inl ValueError
             else
               let ZZ = map (\<lambda>row. division (fsub (np_sum (np_mul_row row v)) E) S)
                          (mapper self);
                   ZZ = set_where ge_zero (Fin 1) ZZ;
                   ZZ = set_where lt_zero (Fin 0) ZZ
               in Inr (map (float_astype_uint8 undef) ZZ))"

definition to_bin ::
  "(fval list \<Rightarrow> fval) \<Rightarrow> nat \<Rightarrow> Real2Binary \<Rightarrow> fval list \<Rightarrow> error + nat list" where
  "to_bin = to_bin_with fdiv"

text \<open>The mapper \<open>B\<close> of the example in the docstring of \<^verbatim>\<open>to_bin\<close>.\<close>

definition docstring_mapper :: Real2Binary where
  "docstring_mapper = \<lparr>mapper = [[1, 0], [1, 1], [0, 0], [1, 0], [1, 1]], mapper_cols = 2\<rparr>"

section \<open>Facts about \<^verbatim>\<open>get_hd_threshold\<close>\<close>





text \<open>
  C1. The claim: for \<open>num_vecs = 1\<close> the function returns 0, an exact match. The code's
  guard for the single vector returns the float \<open>1.0\<close>: the theorem evaluates the code
  there. (Its docstring reads ``0 = exact match'', and the formula below the guard gives
  0 at one vector.)
\<close>

theorem get_hd_threshold_single: "get_hd_threshold 1 = Inr 1"
  by (simp add: get_hd_threshold_def)

text \<open>
  The value the body of the function gives for one vector below its guard: the parity
  adjustment takes 1 to 0, the loop adds \<open>comb(0, 0) = 1\<close>, and \<open>1 - 1 / 2 ^ 0 = 0\<close>.
\<close>

lemma formula_at_one_vector:
  "(let n = (if (1::int) mod 2 > 0 then 1 - 1 else 1);
        P = foldl (\<lambda>P j. P + scm_comb n j) 0 [n div 2..n]
    in 1.0 - P / 2 powi n) = 0"
  by (simp add: scm_comb_def)

text \<open>
  C2 as the spec has it: for every even \<open>N \<ge> 2\<close>, \<open>get_hd_threshold N\<close> equals
  \<open>get_hd_threshold (N - 1)\<close>. It fails at \<open>N = 4\<close>: four vectors give \<open>5/16\<close>, three
  give \<open>1/4\<close>.
\<close>

theorem even_as_predecessor_counterexample:
  "get_hd_threshold 4 = Inr (5 / 16) \<and> get_hd_threshold (4 - 1) = Inr (1 / 4)
   \<and> get_hd_threshold 4 \<noteq> get_hd_threshold (4 - 1)"
  by code_simp

text \<open>
  C2 as amended: the parity test \<^verbatim>\<open>num_vecs % 2 > 0\<close> decrements the odd counts, so an even
  \<open>N \<ge> 2\<close> is used as it is and gives the same outcome as the odd \<open>N + 1\<close> (the code's
  comment: an even number ``is equivalent to calculating on the num_vecs + 1'').
\<close>

theorem even_as_successor:
  assumes "even N" and "2 \<le> N"
  shows "get_hd_threshold N = get_hd_threshold (N + 1)"
proof -
  have m0: "N mod 2 = 0" and m1: "(N + 1) mod 2 = 1"
    using assms(1) by presburger+
  from assms(2) have ne: "N \<noteq> 1" "N + 1 \<noteq> 1" by simp_all
  show ?thesis
    unfolding get_hd_threshold_def using ne by (simp add: m0 m1)
qed

text \<open>The amended C2 at four vectors: four and five vectors both give \<open>5/16\<close>.\<close>

theorem even_as_successor_witness:
  "even (4::int) \<and> (2::int) \<le> 4 \<and> get_hd_threshold 4 = get_hd_threshold 5
   \<and> get_hd_threshold 5 = Inr (5 / 16)"
proof -
  have e: "even (4::int)" and l: "(2::int) \<le> 4" by simp_all
  have "get_hd_threshold 4 = get_hd_threshold (4 + 1)"
    by (rule even_as_successor [OF e l])
  moreover have "get_hd_threshold 5 = Inr (5 / 16)" by code_simp
  ultimately show ?thesis using e l by simp
qed





section \<open>Facts about \<^verbatim>\<open>to_vsa_type\<close>\<close>

text \<open>
  C3. When the discriminant of \<open>v\<close> is the target already, \<open>to_vsa_type\<close> returns \<open>v\<close>
  itself, for every vector and each of the four discriminants.
\<close>

theorem to_vsa_type_same:
  assumes "vsa_type v = vsa_type'"
  shows "to_vsa_type reset_zeros_normalize v vsa_type' = Inr v"
  using assms by (simp add: to_vsa_type_def vsatype_def)

text \<open>C3 at a TernZero vector with a zero: no element is touched.\<close>

theorem to_vsa_type_same_witness:
  "to_vsa_type (\<lambda>v. v) \<lparr>vsa_type = TernZero, elems = [1, 0, - 1]\<rparr> TernZero
     = Inr \<lparr>vsa_type = TernZero, elems = [1, 0, - 1]\<rparr>"
  using to_vsa_type_same [of "\<lparr>vsa_type = TernZero, elems = [1, 0, - 1]\<rparr>" TernZero "\<lambda>v. v"]
  by simp

lemma tern_bsc_tern_elements:
  assumes "list_all (\<lambda>x. x = 1 \<or> x = - 1) xs"
  shows "set_where (\<lambda>x. x = 0) (- 1)
           (astype_int8 (astype_uint8 (set_where (\<lambda>x. x = - 1) 0 xs))) = xs"
  using assms
  by (induction xs) (auto simp: set_where_def astype_int8_def astype_uint8_def)

text \<open>
  C5. For a Tern vector \<open>v\<close> (discriminant Tern, every element 1 or -1), converting to
  BSC and back to Tern succeeds and gives \<open>v\<close> again.
\<close>

theorem tern_bsc_tern_roundtrip:
  assumes "vsa_type v = Tern" and "list_all (\<lambda>x. x = 1 \<or> x = - 1) (elems v)"
  shows "(case to_vsa_type reset_zeros_normalize v BSC of
            Inl e \<Rightarrow> Inl e
          | Inr w \<Rightarrow> to_vsa_type reset_zeros_normalize w Tern) = Inr v"
  using assms
  by (simp add: to_vsa_type_def vsatype_def new_VsaBase_def tern_bsc_tern_elements)

text \<open>C5 at the vector \<open>[1, -1, -1, 1]\<close>, whose BSC form is \<open>[1, 0, 0, 1]\<close>.\<close>

theorem tern_bsc_tern_roundtrip_witness:
  "to_vsa_type (\<lambda>v. v) \<lparr>vsa_type = Tern, elems = [1, - 1, - 1, 1]\<rparr> BSC
     = Inr \<lparr>vsa_type = BSC, elems = [1, 0, 0, 1]\<rparr>
   \<and> to_vsa_type (\<lambda>v. v) \<lparr>vsa_type = BSC, elems = [1, 0, 0, 1]\<rparr> Tern
     = Inr \<lparr>vsa_type = Tern, elems = [1, - 1, - 1, 1]\<rparr>"
proof -
  have first: "to_vsa_type (\<lambda>v. v) \<lparr>vsa_type = Tern, elems = [1, - 1, - 1, 1]\<rparr> BSC
     = Inr \<lparr>vsa_type = BSC, elems = [1, 0, 0, 1]\<rparr>"
    by (simp add: to_vsa_type_def vsatype_def new_VsaBase_def set_where_def astype_uint8_def)
  show ?thesis
    using tern_bsc_tern_roundtrip
            [of "\<lparr>vsa_type = Tern, elems = [1, - 1, - 1, 1]\<rparr>" "\<lambda>v. v"]
    by (simp add: first)
qed

section \<open>Facts about \<^verbatim>\<open>sum\<close>\<close>

text \<open>
  C4 as the spec has it: \<open>sum\<close> fails when the vectors do not share one discriminant.
  The code reads the discriminant of the first vector and checks no other: a BSC and a
  Tern vector are summed, and the result is tagged BSC.
\<close>

theorem sum_vsa_mixed_counterexample:
  "sum_vsa np_sum_axis0
     [\<lparr>vsa_type = BSC, elems = [1, 0]\<rparr>, \<lparr>vsa_type = Tern, elems = [1, - 1]\<rparr>]
   = Inr \<lparr>vsa_type = BSC, elems = [2, - 1]\<rparr>"
  by (simp add: sum_vsa_def new_VsaBase_def)

text \<open>
  C4 as amended: \<open>sum\<close> fails on the empty sequence; on a sequence that is not empty
  it fails only where numpy's sum fails, and the result is tagged with the discriminant
  of the first vector, which is the common one when the vectors share a discriminant.
\<close>

theorem sum_vsa_tag_of_first:
  "isl (sum_vsa np_sum [])
   \<and> (ndarray \<noteq> [] \<longrightarrow>
        sum_vsa np_sum ndarray =
          (case np_sum (map elems ndarray) of
             Inl e \<Rightarrow> Inl e
           | Inr s \<Rightarrow> Inr \<lparr>vsa_type = vsa_type (hd ndarray), elems = s\<rparr>))
   \<and> (ndarray \<noteq> [] \<and> list_all (\<lambda>x. vsa_type x = t) ndarray
        \<and> sum_vsa np_sum ndarray = Inr r \<longrightarrow> vsa_type r = t)"
  by (cases ndarray) (auto simp: sum_vsa_def new_VsaBase_def split: sum.splits)

text \<open>
  The amended C4 on no vector (IndexError) and on two Tern vectors (a Tern result).
\<close>

theorem sum_vsa_tag_of_first_witness:
  "sum_vsa np_sum_axis0 [] = Inl IndexError
   \<and> sum_vsa np_sum_axis0
       [\<lparr>vsa_type = Tern, elems = [1, - 1]\<rparr>, \<lparr>vsa_type = Tern, elems = [1, 1]\<rparr>]
     = Inr \<lparr>vsa_type = Tern, elems = [2, 0]\<rparr>
   \<and> vsa_type \<lparr>vsa_type = Tern, elems = [2, 0 :: int]\<rparr> = Tern"
proof -
  have empty: "sum_vsa np_sum_axis0 [] = Inl IndexError"
    by (simp add: sum_vsa_def)
  show ?thesis
    using sum_vsa_tag_of_first
            [of np_sum_axis0
                "[\<lparr>vsa_type = Tern, elems = [1, - 1]\<rparr>, \<lparr>vsa_type = Tern, elems = [1, 1]\<rparr>]"
                Tern "\<lparr>vsa_type = Tern, elems = [2, 0]\<rparr>"]
    by (simp add: empty)
qed

section \<open>Facts about \<^verbatim>\<open>bind\<close>\<close>




section \<open>Facts about \<^verbatim>\<open>Real2Binary\<close>\<close>




section \<open>Facts about float64 rounding\<close>

lemma round64_0: "round64 0 = Fin 0"
  by (simp add: round64_def)

lemma rne_of_int: "rne (of_int m) = m"
  by (simp add: rne_def)

lemma rne_cases:
  obtains f :: int where "rne r = f" and "of_int f \<le> r" and "r - of_int f \<le> 1 / 2"
  | f :: int where "rne r = f + 1" and "r < of_int f + 1" and "1 / 2 \<le> r - of_int f"
proof -
  define f where "f = \<lfloor>r\<rfloor>"
  have f: "of_int f \<le> r" "r < of_int f + 1" unfolding f_def by linarith+
  have "rne r = f \<and> r - of_int f \<le> 1 / 2 \<or> rne r = f + 1 \<and> 1 / 2 \<le> r - of_int f"
    unfolding rne_def Let_def f_def [symmetric] by auto
  then show ?thesis using f that by blast
qed

lemma rne_ge1:
  assumes "1 / 2 < r"
  shows "1 \<le> rne r"
proof (cases r rule: rne_cases)
  case (1 f)
  have "(0::real) < of_int f" using 1(3) assms by linarith
  then show ?thesis using 1(1) by simp
next
  case (2 f)
  have "(0::real) < of_int f + 1" using 2(2) assms by linarith
  then have "0 \<le> f" by linarith
  then show ?thesis using 2(1) by simp
qed

lemma rne_nonneg:
  assumes "0 \<le> r"
  shows "0 \<le> rne r"
proof (cases r rule: rne_cases)
  case (1 f)
  have "(- 1::real) < of_int f" using 1(3) assms by linarith
  then have "0 \<le> f" by linarith
  then show ?thesis using 1(1) by simp
next
  case (2 f)
  have "(0::real) < of_int f + 1" using 2(2) assms by linarith
  then have "0 \<le> f" by linarith
  then show ?thesis using 2(1) by simp
qed

lemma rne_le: "of_int (rne r) \<le> r + 1 / 2"
proof (cases r rule: rne_cases)
  case (1 f)
  show ?thesis unfolding 1(1) using 1(2) by linarith
next
  case (2 f)
  show ?thesis unfolding 2(1) using 2(3) by simp
qed

lemma rne_ge: "r - 1 / 2 \<le> of_int (rne r)"
proof (cases r rule: rne_cases)
  case (1 f)
  show ?thesis unfolding 1(1) using 1(3) by linarith
next
  case (2 f)
  show ?thesis unfolding 2(1) using 2(2) by simp
qed

lemma powr2_int: "2 powr (of_int e) = (2::real) powi e"
  by (simp add: powr_real_of_int')

lemma floor_log2_bounds:
  assumes "0 < x"
  shows "2 powi \<lfloor>log 2 x\<rfloor> \<le> x" and "x < 2 powi (\<lfloor>log 2 x\<rfloor> + 1)"
proof -
  have "2 powr (of_int \<lfloor>log 2 x\<rfloor>) \<le> 2 powr (log 2 x)"
    by (intro powr_mono) simp_all
  then show "2 powi \<lfloor>log 2 x\<rfloor> \<le> x"
    using assms by (simp add: powr2_int)
  have "log 2 x < of_int (\<lfloor>log 2 x\<rfloor> + 1)" by simp
  then have "2 powr (log 2 x) < 2 powr (of_int (\<lfloor>log 2 x\<rfloor> + 1))"
    by (intro powr_less_mono) simp_all
  then show "x < 2 powi (\<lfloor>log 2 x\<rfloor> + 1)"
    using assms by (simp add: powr2_int del: of_int_add)
qed

lemma floor_log2_eqI:
  assumes "2 powi e \<le> x" and "x < 2 powi (e + 1)"
  shows "\<lfloor>log 2 x\<rfloor> = e"
proof -
  have p: "0 < (2::real) powi e" by simp
  have x0: "0 < x" using assms(1) p by linarith
  have "2 powr (of_int e) \<le> x" using assms(1) by (simp only: powr2_int)
  then have "of_int e \<le> log 2 x"
    using x0 by (simp add: le_log_iff)
  moreover have "x < 2 powr (of_int (e + 1))" using assms(2) by (simp only: powr2_int)
  then have "log 2 x < of_int (e + 1)"
    using x0 by (simp add: log_less_iff)
  ultimately show ?thesis by (simp add: floor_eq_iff)
qed

lemma p2_mono: "a \<le> b \<Longrightarrow> (2::real) powi a \<le> 2 powi b"
  by (rule power_int_increasing) simp_all

lemma p2_add: "(2::real) powi (a + b) = 2 powi a * 2 powi b"
  by (simp add: power_int_add)

lemma p2_pos: "0 < (2::real) powi a"
  by simp

lemma p2_nat: "0 \<le> a \<Longrightarrow> (2::real) powi a = 2 ^ nat a"
  by (simp add: power_int_def)

lemma round64_general:
  assumes "2 powi (- 1075) < \<bar>x\<bar>"
  shows "round64 x =
     (let y = of_int (rne (\<bar>x\<bar> / ulp64 x)) * ulp64 x
      in if 2 ^ 1024 \<le> y then (if 0 < x then PInf else NInf) else Fin (sgn x * y))"
  using assms by (simp add: round64_def Let_def)

lemma ulp64_pos: "0 < ulp64 x"
  by (simp add: ulp64_def)

lemma ulp64_ge: "2 powi (- 1074) \<le> ulp64 x"
  unfolding ulp64_def by (rule p2_mono) simp

lemma ulp64_le:
  assumes "2 powi (- 1075) < \<bar>x\<bar>"
  shows "ulp64 x \<le> 2 * \<bar>x\<bar>"
proof (cases "\<lfloor>log 2 \<bar>x\<bar>\<rfloor> \<le> - 1022")
  case True
  then have "ulp64 x = 2 powi (- 1074)" by (simp add: ulp64_def max_def)
  also have "\<dots> = 2 * 2 powi (- 1075)" 
    using p2_add [of 1 "- 1075"] by simp
  finally show ?thesis using assms by simp
next
  case False
  have x0: "0 < \<bar>x\<bar>" using assms p2_pos [of "- 1075"] by linarith
  from False have "ulp64 x = 2 powi (\<lfloor>log 2 \<bar>x\<bar>\<rfloor> - 52)" by (simp add: ulp64_def max_def)
  also have "\<dots> \<le> 2 powi \<lfloor>log 2 \<bar>x\<bar>\<rfloor>" by (rule p2_mono) simp
  also have "\<dots> \<le> \<bar>x\<bar>" by (rule floor_log2_bounds(1) [OF x0])
  finally show ?thesis using x0 by simp
qed

lemma ratio_gt_half:
  assumes "2 powi (- 1075) < \<bar>x\<bar>"
  shows "1 / 2 < \<bar>x\<bar> / ulp64 x"
proof (cases "\<lfloor>log 2 \<bar>x\<bar>\<rfloor> \<le> - 1022")
  case True
  then have u: "ulp64 x = 2 powi (- 1074)" by (simp add: ulp64_def max_def)
  have "2 powi (- 1074) = 2 * (2::real) powi (- 1075)"
    using p2_add [of 1 "- 1075"] by simp
  then have "ulp64 x / 2 < \<bar>x\<bar>" using assms u by simp
  then show ?thesis using ulp64_pos [of x] by (simp add: field_simps)
next
  case False
  have x0: "0 < \<bar>x\<bar>" using assms p2_pos [of "- 1075"] by linarith
  from False have "ulp64 x = 2 powi (\<lfloor>log 2 \<bar>x\<bar>\<rfloor> - 52)" by (simp add: ulp64_def max_def)
  also have "\<dots> \<le> 2 powi \<lfloor>log 2 \<bar>x\<bar>\<rfloor>" by (rule p2_mono) simp
  also have "\<dots> \<le> \<bar>x\<bar>" by (rule floor_log2_bounds(1) [OF x0])
  finally have "ulp64 x / 2 < \<bar>x\<bar>" using ulp64_pos [of x] by linarith
  then show ?thesis using ulp64_pos [of x] by (simp add: field_simps)
qed

lemma round64_pos:
  assumes "2 powi (- 1075) < x" and "x < 2 ^ 1023"
  shows "\<exists>y. round64 x = Fin y \<and> 0 < y"
proof -
  have ax: "\<bar>x\<bar> = x" and x0: "0 < x" using assms(1) p2_pos [of "- 1075"] by linarith+
  have a: "2 powi (- 1075) < \<bar>x\<bar>" using assms(1) ax by simp
  define m where "m = rne (\<bar>x\<bar> / ulp64 x)"
  define y where "y = of_int m * ulp64 x"
  have m1: "1 \<le> m" unfolding m_def by (rule rne_ge1 [OF ratio_gt_half [OF a]])
  have y0: "0 < y" unfolding y_def using m1 ulp64_pos [of x] by simp
  have "of_int m \<le> \<bar>x\<bar> / ulp64 x + 1 / 2" unfolding m_def by (rule rne_le)
  then have "of_int m * ulp64 x \<le> (\<bar>x\<bar> / ulp64 x + 1 / 2) * ulp64 x"
    using ulp64_pos [of x] by (simp add: mult_right_mono)
  also have "\<dots> = \<bar>x\<bar> + ulp64 x / 2" using ulp64_pos [of x] by (simp add: field_simps)
  also have "\<dots> \<le> 2 * \<bar>x\<bar>" using ulp64_le [OF a] by simp
  also have "\<dots> < 2 * 2 ^ 1023" using assms(2) ax by simp
  finally have "y < 2 ^ 1024" unfolding y_def by simp
  then have "round64 x = Fin y"
    using x0 by (simp add: round64_general [OF a] Let_def y_def m_def)
  then show ?thesis using y0 by blast
qed

lemma round64_range:
  assumes "round64 r = Fin s" and "s \<noteq> 0"
  shows "2 powi (- 1074) \<le> \<bar>s\<bar> \<and> \<bar>s\<bar> < 2 ^ 1024"
proof -
  have a: "2 powi (- 1075) < \<bar>r\<bar>"
    using assms by (auto simp: round64_def split: if_splits)
  define m where "m = rne (\<bar>r\<bar> / ulp64 r)"
  define y where "y = of_int m * ulp64 r"
  have m1: "1 \<le> m" unfolding m_def by (rule rne_ge1 [OF ratio_gt_half [OF a]])
  have r0: "r \<noteq> 0" using a by auto
  from assms(1) have s: "s = sgn r * y" and lt: "y < 2 ^ 1024"
    unfolding round64_general [OF a] Let_def y_def m_def by (auto split: if_splits)
  have "(1::real) \<le> of_int m" using m1 by simp
  then have "1 * ulp64 r \<le> of_int m * ulp64 r"
    using ulp64_pos [of r] by (intro mult_right_mono) simp_all
  then have "ulp64 r \<le> y" unfolding y_def by simp
  then have yge: "2 powi (- 1074) \<le> y" using ulp64_ge [of r] by linarith
  have "\<bar>s\<bar> = y" using s r0 yge p2_pos [of "- 1074"] by (simp add: abs_mult abs_sgn_eq)
  then show ?thesis using yge lt by simp
qed

lemma round64_exact:
  assumes "x = of_int m * 2 powi k" and "\<bar>m\<bar> < 2 ^ 53" and "- 1074 \<le> k" and "\<bar>x\<bar> < 2 ^ 1024"
  shows "round64 x = Fin x"
proof (cases "m = 0")
  case True
  then show ?thesis using assms(1) by (simp add: round64_0)
next
  case False
  then have m1: "1 \<le> \<bar>m\<bar>" by simp
  have ax: "\<bar>x\<bar> = of_int \<bar>m\<bar> * 2 powi k" using assms(1) by (simp add: abs_mult)
  have "2 powi (- 1074) \<le> (2::real) powi k" using assms(3) by (rule p2_mono)
  also have "\<dots> \<le> of_int \<bar>m\<bar> * 2 powi k" using m1 by simp
  finally have ge: "2 powi (- 1074) \<le> \<bar>x\<bar>" using ax by simp
  have "(2::real) powi (- 1075) < 2 powi (- 1074)"
    by (rule power_int_strict_increasing) simp_all
  then have a: "2 powi (- 1075) < \<bar>x\<bar>" using ge by linarith
  have x0: "0 < \<bar>x\<bar>" using a p2_pos [of "- 1075"] by linarith
  define e where "e = max \<lfloor>log 2 \<bar>x\<bar>\<rfloor> (- 1022)"
  have u: "ulp64 x = 2 powi (e - 52)" by (simp add: ulp64_def e_def)
  have ek: "e - 52 \<le> k"
  proof (cases "\<lfloor>log 2 \<bar>x\<bar>\<rfloor> \<le> - 1022")
    case True
    then show ?thesis using assms(3) by (simp add: e_def max_def)
  next
    case False
    then have e: "e = \<lfloor>log 2 \<bar>x\<bar>\<rfloor>" by (simp add: e_def max_def)
    have "2 powi e \<le> \<bar>x\<bar>" unfolding e by (rule floor_log2_bounds(1) [OF x0])
    also have "\<dots> < 2 ^ 53 * 2 powi k"
      unfolding ax using assms(2) by (simp add: of_int_less_iff [symmetric, where 'a = real] del: of_int_less_iff)
    also have "\<dots> = 2 powi (53 + k)" by (simp add: p2_add p2_nat)
    finally have lt: "(2::real) powi e < 2 powi (53 + k)" .
    have "e < 53 + k"
    proof (rule ccontr)
      assume "\<not> e < 53 + k"
      then have "(2::real) powi (53 + k) \<le> 2 powi e" by (intro p2_mono) simp
      then show False using lt by simp
    qed
    then show ?thesis by simp
  qed
  define j where "j = nat (k - (e - 52))"
  have kj: "k = (e - 52) + int j" using ek by (simp add: j_def)
  have ratio: "\<bar>x\<bar> / ulp64 x = of_int (\<bar>m\<bar> * 2 ^ j)"
    unfolding ax u by (subst kj) (simp add: p2_add p2_nat)
  have "of_int (rne (\<bar>x\<bar> / ulp64 x)) * ulp64 x = \<bar>x\<bar>"
    unfolding ratio rne_of_int
    unfolding ratio [symmetric] using ulp64_pos [of x] by simp
  then have "round64 x = Fin (sgn x * \<bar>x\<bar>)"
    using assms(4) by (simp add: round64_general [OF a] Let_def)
  then show ?thesis by (simp add: sgn_mult_abs)
qed

lemma round64_of_int:
  assumes "\<bar>n\<bar> < 2 ^ 53"
  shows "round64 (of_int n) = Fin (of_int n)"
proof -
  have "\<bar>real_of_int n\<bar> < 2 ^ 53" using assms
    by (metis of_int_abs of_int_less_iff of_int_numeral of_int_power)
  also have "\<dots> < (2::real) ^ 1024" by simp
  finally show ?thesis
    using round64_exact [of "of_int n" n 0] assms by simp
qed

lemma round64_1 [simp]: "round64 1 = Fin 1"
  using round64_of_int [of 1] by simp

lemma round64_m1 [simp]: "round64 (- 1) = Fin (- 1)"
  using round64_of_int [of "- 1"] by simp

lemma round64_numeral:
  "(numeral w :: int) < 2 ^ 53 \<Longrightarrow> round64 (numeral w) = Fin (numeral w)"
  using round64_of_int [of "numeral w"] by simp

lemma round64_neg_numeral:
  "(numeral w :: int) < 2 ^ 53 \<Longrightarrow> round64 (- numeral w) = Fin (- numeral w)"
  using round64_of_int [of "- numeral w"] by simp

lemma rne_eval_down:
  assumes "of_int f \<le> r" and "r - of_int f < 1 / 2"
  shows "rne r = f"
proof -
  have "\<lfloor>r\<rfloor> = f" using assms by (intro floor_unique) linarith+
  then show ?thesis using assms(2) by (simp add: rne_def)
qed

lemma rne_eval_tie_even:
  assumes "r = of_int f + 1 / 2" and "even f"
  shows "rne r = f"
proof -
  have "\<lfloor>r\<rfloor> = f" using assms(1) by (intro floor_unique) linarith+
  then show ?thesis using assms by (simp add: rne_def)
qed

lemma round64_eval:
  assumes "2 powi e \<le> x" and "x < 2 powi (e + 1)" and "- 1022 \<le> e" and "e \<le> 1021"
    and "rne (x / 2 powi (e - 52)) = m"
  shows "round64 x = Fin (of_int m * 2 powi (e - 52))"
proof -
  have "(2::real) powi (- 1075) < 2 powi e"
    using assms(3) by (intro power_int_strict_increasing) simp_all
  then have a: "2 powi (- 1075) < \<bar>x\<bar>" and x0: "0 < x" and ax: "\<bar>x\<bar> = x"
    using assms(1) p2_pos [of "- 1075"] by linarith+
  have fl: "\<lfloor>log 2 \<bar>x\<bar>\<rfloor> = e" unfolding ax by (rule floor_log2_eqI [OF assms(1,2)])
  have u: "ulp64 x = 2 powi (e - 52)" using assms(3) by (simp add: ulp64_def fl max_def)
  have "of_int m \<le> x / ulp64 x + 1 / 2" unfolding assms(5) [symmetric] u by (rule rne_le)
  then have "of_int m * ulp64 x \<le> (x / ulp64 x + 1 / 2) * ulp64 x"
    using ulp64_pos [of x] by (simp add: mult_right_mono)
  also have "\<dots> = x + ulp64 x / 2" using ulp64_pos [of x] by (simp add: field_simps)
  also have "\<dots> \<le> 2 * x" using ulp64_le [OF a] ax by simp
  also have "\<dots> < 2 * 2 powi (e + 1)" using assms(2) by simp
  also have "\<dots> = 2 powi (e + 2)" using p2_add [of 1 "e + 1"] by (simp add: add.commute)
  also have "\<dots> \<le> 2 powi 1023" using assms(4) by (intro p2_mono) simp
  also have "\<dots> < (2::real) ^ 1024" by simp
  finally have lt: "of_int m * ulp64 x < 2 ^ 1024" .
  show ?thesis
    using lt x0 assms(5) by (simp add: round64_general [OF a] u ax Let_def)
qed

lemmas powi_eval = power_inverse inverse_eq_divide

lemma round64_tie_two: "round64 (2 + 2 powi (- 52)) = Fin 2"
proof -
  have r: "rne ((2 + 2 powi (- 52)) / 2 powi (1 - 52)) = 2 ^ 52"
    by (rule rne_eval_tie_even) (simp_all add: powi_eval field_simps)
  have "round64 (2 + 2 powi (- 52)) = Fin (of_int (2 ^ 52) * 2 powi (1 - 52))"
    by (rule round64_eval [OF _ _ _ _ r]) (simp_all add: powi_eval)
  then show ?thesis by (simp add: powi_eval)
qed

lemma round64_square_next:
  "round64 ((1 + 2 powi (- 52)) * (1 + 2 powi (- 52))) = Fin (1 + 2 powi (- 51))"
proof -
  have r: "rne ((1 + 2 powi (- 52)) * (1 + 2 powi (- 52)) / 2 powi (0 - 52)) = 2 ^ 52 + 2"
    by (rule rne_eval_down) (simp_all add: powi_eval field_simps)
  have "round64 ((1 + 2 powi (- 52)) * (1 + 2 powi (- 52)))
          = Fin (of_int (2 ^ 52 + 2) * 2 powi (0 - 52))"
    by (rule round64_eval [OF _ _ _ _ r]) (simp_all add: powi_eval field_simps)
  then show ?thesis by (simp add: powi_eval field_simps)
qed

section \<open>Facts about \<^verbatim>\<open>to_bin\<close>\<close>

lemma threshold_bit:
  assumes "z \<noteq> NaN"
  shows "float_astype_uint8 undef
           (if lt_zero (if ge_zero z then Fin 1 else z) then Fin 0
            else (if ge_zero z then Fin 1 else z))
         = (if ge_zero z then 1 else 0)"
  using assms by (cases z) simp_all

lemma threshold_nan:
  "float_astype_uint8 undef
     (if lt_zero (if ge_zero NaN then Fin 1 else NaN) then Fin 0
      else (if ge_zero NaN then Fin 1 else NaN)) = undef"
  by simp

lemma thresholds_map:
  assumes "list_all (\<lambda>z. z \<noteq> NaN) zs"
  shows "map (float_astype_uint8 undef) (set_where lt_zero (Fin 0) (set_where ge_zero (Fin 1) zs))
         = map (\<lambda>z. if ge_zero z then 1 else 0) zs"
  using assms by (induction zs) (simp_all add: set_where_def threshold_bit)

lemma to_bin_with_unfold:
  assumes "Var_V np_sum v = Inr S" and "broadcastable (mapper_cols self) (length v)"
  shows "to_bin_with division np_sum undef self v =
     Inr (map (float_astype_uint8 undef)
           (set_where lt_zero (Fin 0) (set_where ge_zero (Fin 1)
              (map (\<lambda>row. division (fsub (np_sum (np_mul_row row v)) (Exp_V np_sum v)) S)
                 (mapper self)))))"
  using assms by (simp add: to_bin_with_def Let_def)

lemma to_bin_defined_bits:
  assumes "Var_V np_sum v = Inr S" and "broadcastable (mapper_cols self) (length v)"
    and "list_all (\<lambda>row. fdiv (fsub (np_sum (np_mul_row row v)) (Exp_V np_sum v)) S \<noteq> NaN)
           (mapper self)"
  shows "to_bin np_sum undef self v =
     Inr (map (\<lambda>row. if ge_zero (fdiv (fsub (np_sum (np_mul_row row v)) (Exp_V np_sum v)) S)
                      then 1 else 0) (mapper self))"
proof -
  have "list_all (\<lambda>z. z \<noteq> NaN)
          (map (\<lambda>row. fdiv (fsub (np_sum (np_mul_row row v)) (Exp_V np_sum v)) S) (mapper self))"
    using assms(3) by (simp add: list_all_iff)
  from thresholds_map [OF this, of undef] show ?thesis
    by (simp add: to_bin_def to_bin_with_unfold [OF assms(1,2)] o_def)
qed

text \<open>
  C8 as amended. For an input \<open>v\<close> of length \<open>rdim\<close> on which \<^verbatim>\<open>math.sqrt\<close> does not raise
  (\<open>Var_V\<close> is a float \<open>S\<close>) and for which no quotient is nan, \<open>to_bin\<close> returns a vector
  with one element for each row of the mapper (the binary dimension). Element \<open>i\<close> is 1
  when the float64 quotient that numpy computes for row \<open>i\<close> (the sum of the products
  of the row with \<open>v\<close>, less \<open>Exp_V = 0.5 * sum v\<close>, divided by
  \<open>Var_V = sqrt (0.25 * sum (v * v))\<close>, every operation rounded) is at least 0, and 0
  otherwise; every element is 0 or 1.
\<close>

theorem to_bin_thresholds:
  assumes "mapper_cols self = length v"
    and "list_all (\<lambda>row. length row = length v) (mapper self)"
    and "Var_V np_sum v = Inr S"
    and "list_all (\<lambda>row. fdiv (fsub (np_sum (map2 (\<lambda>m x. fmul (Fin (real m)) x) row v))
                                   (Exp_V np_sum v)) S \<noteq> NaN) (mapper self)"
  shows "\<exists>r. to_bin np_sum undef self v = Inr r
           \<and> length r = length (mapper self)
           \<and> r = map (\<lambda>row. if ge_zero (fdiv (fsub (np_sum (map2 (\<lambda>m x. fmul (Fin (real m)) x) row v))
                                                   (Exp_V np_sum v)) S)
                              then 1 else 0) (mapper self)
           \<and> list_all (\<lambda>b. b = 0 \<or> b = 1) r"
proof -
  have rows: "\<And>row. row \<in> set (mapper self) \<Longrightarrow>
      np_mul_row row v = map2 (\<lambda>m x. fmul (Fin (real m)) x) row v"
    using assms(2) by (simp add: np_mul_row_def list_all_iff)
  have bc: "broadcastable (mapper_cols self) (length v)"
    using assms(1) by (simp add: broadcastable_def)
  have nn: "list_all (\<lambda>row. fdiv (fsub (np_sum (np_mul_row row v)) (Exp_V np_sum v)) S \<noteq> NaN)
           (mapper self)"
    using assms(4) rows by (simp add: list_all_iff)
  have "to_bin np_sum undef self v =
     Inr (map (\<lambda>row. if ge_zero (fdiv (fsub (np_sum (np_mul_row row v)) (Exp_V np_sum v)) S)
                      then 1 else 0) (mapper self))"
    by (rule to_bin_defined_bits [OF assms(3) bc nn])
  also have "\<dots> = Inr (map (\<lambda>row. if ge_zero (fdiv (fsub (np_sum (map2 (\<lambda>m x. fmul (Fin (real m)) x) row v))
                                                   (Exp_V np_sum v)) S)
                              then 1 else 0) (mapper self))"
    using rows by simp
  finally show ?thesis by (auto simp: list_all_iff)
qed

text \<open>
  The amended C8 on the mapper of the docstring and \<open>v = [2, 0]\<close>: \<open>Exp_V = 1\<close>,
  \<open>Var_V = 1\<close>, and the rows give the quotients 1, 1, -1, 1, 1.
\<close>

theorem to_bin_thresholds_witness:
  "Var_V seq_sum [Fin 2, Fin 0] = Inr (Fin 1)
   \<and> (\<forall>undef. to_bin seq_sum undef docstring_mapper [Fin 2, Fin 0] = Inr [1, 1, 0, 1, 1])"
proof (intro conjI allI)
  show V: "Var_V seq_sum [Fin 2, Fin 0] = Inr (Fin 1)"
    by (simp add: Var_V_def seq_sum_def round64_0 round64_numeral)
  fix undef :: nat
  show "to_bin seq_sum undef docstring_mapper [Fin 2, Fin 0] = Inr [1, 1, 0, 1, 1]"
    using to_bin_thresholds [of docstring_mapper "[Fin 2, Fin 0]" seq_sum "Fin 1" undef]
    by (simp add: V docstring_mapper_def Exp_V_def seq_sum_def fsub_def round64_0
          round64_numeral round64_neg_numeral)
qed

lemma sqrt_pos_finite:
  assumes "1 / 4 \<le> h" and "h \<le> 1"
  shows "\<exists>d. round64 (sqrt h) = Fin d \<and> 0 < d"
proof (rule round64_pos)
  have "(2::real) powi (- 1075) < 2 powi (- 1)"
    by (rule power_int_strict_increasing) simp_all
  also have "\<dots> = sqrt (1 / 4)" by (simp add: real_sqrt_divide)
  also have "\<dots> \<le> sqrt h" using assms(1) by (simp only: real_sqrt_le_iff)
  finally show "2 powi (- 1075) < sqrt h" .
  have "sqrt h \<le> 1" using assms(2) by simp
  also have "(1::real) < 2 ^ 1023" by simp
  finally show "sqrt h < 2 ^ 1023" .
qed

text \<open>
  C8 as the spec has it: element \<open>i\<close> is 1 when the dot product of row \<open>i\<close> with \<open>v\<close>, less
  \<open>0.5 * sum v\<close>, divided by \<open>sqrt (0.25 * sum (v * v))\<close>, is at least 0, and 0
  otherwise. The code thresholds the rounded float64 values, not that real number. At
  \<open>v = [1, 1 + 2 ^ -52]\<close> (two neighbouring floats) and the row \<open>[1, 0]\<close> the sum
  \<open>2 + 2 ^ -52\<close> is a tie and rounds to 2, so \<open>Exp_V = 1\<close>, the numerator is 0 and the
  element is 1, while the real expression is negative.
\<close>

theorem rounded_threshold_counterexample:
  "(\<forall>undef. to_bin seq_sum undef \<lparr>mapper = [[1, 0]], mapper_cols = 2\<rparr>
               [Fin 1, Fin (1 + 2 powi (- 52))] = Inr [1])
   \<and> ((1 * 1 + 0 * (1 + 2 powi (- 52))) - 0.5 * (1 + (1 + 2 powi (- 52))))
        / sqrt (0.25 * (1 * 1 + (1 + 2 powi (- 52)) * (1 + 2 powi (- 52)))) < (0::real)"
proof (intro conjI allI)
  fix undef :: nat
  define b :: real where "b = 1 + 2 powi (- 52)"
  define c :: real where "c = 1 + 2 powi (- 51)"
  define h :: real where "h = 0.25 * (1 + c)"
  have sq: "round64 (b * b) = Fin c" unfolding b_def c_def by (rule round64_square_next)
  have s2: "round64 (1 + c) = Fin (1 + c)"
    unfolding c_def using round64_exact [of "1 + (1 + 2 powi (- 51))" "2 ^ 52 + 1" "- 51"]
    by (simp add: powi_eval field_simps)
  have q: "round64 (0.25 * (1 + c)) = Fin h"
    unfolding h_def c_def
    using round64_exact [of "0.25 * (1 + (1 + 2 powi (- 51)))" "2 ^ 52 + 1" "- 53"]
    by (simp add: powi_eval field_simps)
  have hb: "1 / 4 \<le> h" "h \<le> 1" unfolding h_def c_def by (simp_all add: powi_eval)
  obtain d where d: "round64 (sqrt h) = Fin d" "0 < d"
    using sqrt_pos_finite [OF hb] by blast
  have A: "map2 fmul [Fin 1, Fin b] [Fin 1, Fin b] = [Fin 1, Fin c]" by (simp add: sq)
  have B: "seq_sum [Fin 1, Fin c] = Fin (1 + c)" by (simp add: seq_sum_def round64_0 s2)
  have C: "fmul (Fin 0.25) (Fin (1 + c)) = Fin h" unfolding fmul.simps by (rule q)
  have D: "math_sqrt (Fin h) = Inr (Fin d)" using hb(1) d(1) by simp
  have V: "Var_V seq_sum [Fin 1, Fin b] = Inr (Fin d)" by (simp only: Var_V_def A B C D)
  have tie: "round64 (1 + b) = Fin 2"
    unfolding b_def using round64_tie_two by (simp add: add.assoc [symmetric])
  have S: "seq_sum [Fin 1, Fin b] = Fin 2" by (simp add: seq_sum_def round64_0 tie)
  have E: "Exp_V seq_sum [Fin 1, Fin b] = Fin 1" by (simp add: Exp_V_def S)
  have R: "seq_sum (np_mul_row [Suc 0, 0] [Fin 1, Fin b]) = Fin 1"
    by (simp add: np_mul_row_def seq_sum_def round64_0)
  have "to_bin seq_sum undef \<lparr>mapper = [[1, 0]], mapper_cols = 2\<rparr> [Fin 1, Fin b] = Inr [1]"
    using d(2)
    by (simp add: to_bin_def to_bin_with_def V E R broadcastable_def fsub_def set_where_def
          round64_0 Let_def)
  then show "to_bin seq_sum undef \<lparr>mapper = [[1, 0]], mapper_cols = 2\<rparr>
          [Fin 1, Fin (1 + 2 powi (- 52))] = Inr [1]"
    unfolding b_def .
next
  have n: "(1 * 1 + 0 * (1 + 2 powi (- 52))) - 0.5 * (1 + (1 + 2 powi (- 52))) < (0::real)"
    by simp
  have "0 < 0.25 * (1 * 1 + (1 + 2 powi (- 52)) * (1 + 2 powi (- 52)) :: real)"
    by (simp add: add_pos_pos)
  then have "0 < sqrt (0.25 * (1 * 1 + (1 + 2 powi (- 52)) * (1 + 2 powi (- 52))))"
    by (simp only: real_sqrt_gt_0_iff)
  then show "((1 * 1 + 0 * (1 + 2 powi (- 52))) - 0.5 * (1 + (1 + 2 powi (- 52))))
        / sqrt (0.25 * (1 * 1 + (1 + 2 powi (- 52)) * (1 + 2 powi (- 52)))) < (0::real)"
    using n by (simp only: divide_neg_pos)
qed

lemma round64_not_nan: "round64 x \<noteq> NaN"
  by (simp add: round64_def Let_def)

lemma fdiv_pos_not_nan:
  assumes "x \<noteq> NaN" and "0 < d"
  shows "fdiv x (Fin d) \<noteq> NaN"
  using assms by (cases x) (simp_all add: round64_not_nan)

lemma seq_sum_zeros: "seq_sum (replicate n (Fin 0)) = Fin 0"
proof -
  have "foldl fadd (Fin 0) (replicate n (Fin 0)) = Fin 0"
    by (induction n) (simp_all add: round64_0)
  then show ?thesis by (simp add: seq_sum_def)
qed

lemma zero_row:
  "\<exists>k. np_mul_row row (replicate n (Fin 0)) = replicate k (Fin 0)"
proof -
  have "\<forall>y\<in>set (np_mul_row row (replicate n (Fin 0))). y = Fin 0"
    by (cases n) (auto simp: np_mul_row_def round64_0 dest!: set_zip_rightD)
  then have "replicate (length (np_mul_row row (replicate n (Fin 0)))) (Fin 0)
               = np_mul_row row (replicate n (Fin 0))"
    by (intro replicate_length_same) simp
  then show ?thesis by metis
qed

lemma zero_squares: "map2 fmul (replicate n (Fin 0)) (replicate n (Fin 0)) = replicate n (Fin 0)"
  by (induction n) (simp_all add: round64_0)

lemma Var_V_zeros:
  assumes "\<forall>n. np_sum (replicate n (Fin 0)) = Fin 0"
  shows "Var_V np_sum (replicate n (Fin 0)) = Inr (Fin 0)"
  using assms by (simp add: Var_V_def zero_squares round64_0)

lemma to_bin_zeros:
  assumes "\<forall>n. np_sum (replicate n (Fin 0)) = Fin 0"
    and "broadcastable (mapper_cols self) n"
  shows "to_bin np_sum undef self (replicate n (Fin 0))
         = Inr (replicate (length (mapper self)) undef)"
proof -
  have E: "Exp_V np_sum (replicate n (Fin 0)) = Fin 0"
    using assms(1) by (simp add: Exp_V_def round64_0)
  have row: "\<And>row. np_sum (np_mul_row row (replicate n (Fin 0))) = Fin 0"
    using zero_row [of _ n] assms(1) by metis
  have "map (\<lambda>row. fdiv (fsub (np_sum (np_mul_row row (replicate n (Fin 0))))
                 (Exp_V np_sum (replicate n (Fin 0)))) (Fin 0)) (mapper self)
        = replicate (length (mapper self)) NaN"
    by (simp add: E row fsub_def round64_0 inf_of_sign_def map_replicate_const)
  then show ?thesis
    using assms(2)
    by (simp add: to_bin_def to_bin_with_unfold [OF Var_V_zeros [OF assms(1)]] set_where_def)
qed

lemma sqrt_round_pos:
  assumes "round64 r = Fin s" and "0 < s"
  shows "\<exists>d. round64 (sqrt s) = Fin d \<and> 0 < d"
proof (rule round64_pos)
  have rg: "2 powi (- 1074) \<le> s" "s < 2 ^ 1024"
    using round64_range [OF assms(1)] assms(2) by simp_all
  have "(2::real) powi (- 1075) < 2 powi (- 537)"
    by (rule power_int_strict_increasing) simp_all
  also have "\<dots> \<le> sqrt s"
  proof (rule real_le_rsqrt)
    have "((2::real) powi (- 537))\<^sup>2 = 2 powi (- 537) * 2 powi (- 537)"
      by (simp add: power2_eq_square)
    also have "\<dots> = 2 powi (- 1074)" using p2_add [of "- 537" "- 537"] by simp
    finally show "((2::real) powi (- 537))\<^sup>2 \<le> s" using rg(1) by simp
  qed
  finally show "2 powi (- 1075) < sqrt s" .
  have "sqrt s < 2 ^ 512"
  proof (rule real_less_lsqrt)
    show "(0::real) \<le> 2 ^ 512" by simp
    have "((2::real) ^ 512)\<^sup>2 = 2 ^ 1024" by (simp add: power_mult [symmetric])
    then show "s < (2 ^ 512)\<^sup>2" using rg(2) by simp
  qed
  also have "(2::real) ^ 512 < 2 ^ 1023" by (rule power_strict_increasing) simp_all
  finally show "sqrt s < 2 ^ 1023" .
qed

lemma Var_V_pos:
  assumes "fmul (Fin 0.25) (np_sum (map2 fmul v v)) = Fin s" and "0 < s"
  shows "\<exists>d. Var_V np_sum v = Inr (Fin d) \<and> 0 < d"
proof -
  obtain r where r: "round64 r = Fin s"
    using assms(1) by (cases "np_sum (map2 fmul v v)") (auto simp: inf_of_sign_def)
  from sqrt_round_pos [OF r assms(2)] obtain d where "round64 (sqrt s) = Fin d" "0 < d"
    by blast
  then show ?thesis using assms by (simp add: Var_V_def)
qed

lemma to_bin_with_only_divisor:
  assumes "\<forall>S x. Var_V np_sum v = Inr S \<longrightarrow> division x S = division' x S"
  shows "to_bin_with division np_sum undef self v = to_bin_with division' np_sum undef self v"
  using assms by (cases "Var_V np_sum v") (simp_all add: to_bin_with_def Let_def)

text \<open>
  C10 as amended. \<open>to_bin\<close> divides by \<open>Var_V = sqrt (0.25 * sum (v * v))\<close> and by nothing
  else: the operator that stands for the one \<^verbatim>\<open>/\<close> of the method matters only at the
  divisor \<open>Var_V\<close>. With a sum that adds zeros to zero:
  \<^item> on the all-zero vector the divisor is zero, and the method has no guard for it: it
    raises nothing, every quotient is nan, and every byte returned is the undefined
    cast of nan;
  \<^item> when the float \<open>0.25 * sum (v * v)\<close> is positive the divisor is a positive float,
    and with such a divisor and numerators that are not nan the result is a vector of
    bits.
  That the divisor is zero only for the all-zero vector does not hold (see the
  counterexample).
\<close>

theorem to_bin_divisor:
  assumes "\<forall>n. np_sum (replicate n (Fin 0)) = Fin 0"
  shows "((\<forall>S x. Var_V np_sum v = Inr S \<longrightarrow> division x S = division' x S)
            \<longrightarrow> to_bin_with division np_sum undef self v
                  = to_bin_with division' np_sum undef self v)
   \<and> Var_V np_sum (replicate n (Fin 0)) = Inr (Fin 0)
   \<and> (broadcastable (mapper_cols self) n
        \<longrightarrow> to_bin np_sum undef self (replicate n (Fin 0))
              = Inr (replicate (length (mapper self)) undef))
   \<and> (fmul (Fin 0.25) (np_sum (map2 fmul v v)) = Fin s \<and> 0 < s
        \<longrightarrow> (\<exists>d. Var_V np_sum v = Inr (Fin d) \<and> 0 < d))
   \<and> (Var_V np_sum v = Inr (Fin d) \<and> 0 < d \<and> broadcastable (mapper_cols self) (length v)
        \<and> list_all (\<lambda>row. fsub (np_sum (np_mul_row row v)) (Exp_V np_sum v) \<noteq> NaN) (mapper self)
        \<longrightarrow> (\<exists>r. to_bin np_sum undef self v = Inr r \<and> list_all (\<lambda>b. b = 0 \<or> b = 1) r))"
proof (intro conjI impI)
  assume "\<forall>S x. Var_V np_sum v = Inr S \<longrightarrow> division x S = division' x S"
  then show "to_bin_with division np_sum undef self v = to_bin_with division' np_sum undef self v"
    by (rule to_bin_with_only_divisor)
next
  show "Var_V np_sum (replicate n (Fin 0)) = Inr (Fin 0)" by (rule Var_V_zeros [OF assms])
next
  assume "broadcastable (mapper_cols self) n"
  then show "to_bin np_sum undef self (replicate n (Fin 0))
              = Inr (replicate (length (mapper self)) undef)"
    by (rule to_bin_zeros [OF assms])
next
  assume "fmul (Fin 0.25) (np_sum (map2 fmul v v)) = Fin s \<and> 0 < s"
  then show "\<exists>d. Var_V np_sum v = Inr (Fin d) \<and> 0 < d" using Var_V_pos by blast
next
  assume a: "Var_V np_sum v = Inr (Fin d) \<and> 0 < d \<and> broadcastable (mapper_cols self) (length v)
        \<and> list_all (\<lambda>row. fsub (np_sum (np_mul_row row v)) (Exp_V np_sum v) \<noteq> NaN) (mapper self)"
  then have "list_all (\<lambda>row. fdiv (fsub (np_sum (np_mul_row row v)) (Exp_V np_sum v)) (Fin d) \<noteq> NaN)
           (mapper self)"
    by (simp add: list_all_iff fdiv_pos_not_nan)
  with a have "to_bin np_sum undef self v =
     Inr (map (\<lambda>row. if ge_zero (fdiv (fsub (np_sum (np_mul_row row v)) (Exp_V np_sum v)) (Fin d))
                      then 1 else 0) (mapper self))"
    by (intro to_bin_defined_bits) simp_all
  then show "\<exists>r. to_bin np_sum undef self v = Inr r \<and> list_all (\<lambda>b. b = 0 \<or> b = 1) r"
    by (auto simp: list_all_iff)
qed

text \<open>
  C10 as the spec has it: the divisor is zero exactly when \<open>v\<close> is the all-zero vector.
  At \<open>v = [2 ^ -600]\<close> the square \<open>2 ^ -1200\<close> underflows to zero, and the divisor is
  zero for a vector that is not all-zero.
\<close>

theorem underflow_divisor_counterexample:
  "Var_V seq_sum [Fin (2 powi (- 600))] = Inr (Fin 0) \<and> (2::real) powi (- 600) \<noteq> 0"
proof -
  define t :: real where "t = 2 powi (- 600)"
  have "t * t = 2 powi (- 1200)"
    unfolding t_def using p2_add [of "- 600" "- 600"] by simp
  also have "\<dots> \<le> 2 powi (- 1075)" by (rule p2_mono) simp
  finally have small: "\<bar>t * t\<bar> \<le> 2 powi (- 1075)"
    by (simp add: abs_mult)
  have sq: "round64 (t * t) = Fin 0"
    using small by (simp only: round64_def if_True)
  have "Var_V seq_sum [Fin t] = Inr (Fin 0)"
    by (simp add: Var_V_def seq_sum_def sq round64_0)
  then show ?thesis unfolding t_def by simp
qed

text \<open>
  The amended C10 on the mapper of the docstring: the all-zero vector of length 2
  (divisor 0, five undefined bytes, here 7) and \<open>v = [2, 0]\<close> (divisor 1), where a
  division operator that is numpy's at the divisor 1 only gives the same result.
\<close>

theorem to_bin_divisor_witness:
  "Var_V seq_sum (replicate 2 (Fin 0)) = Inr (Fin 0)
   \<and> to_bin seq_sum 7 docstring_mapper (replicate 2 (Fin 0)) = Inr [7, 7, 7, 7, 7]
   \<and> Var_V seq_sum [Fin 2, Fin 0] = Inr (Fin 1)
   \<and> to_bin_with (\<lambda>x S. if S = Fin 1 then fdiv x S else NaN) seq_sum 7 docstring_mapper
        [Fin 2, Fin 0] = Inr [1, 1, 0, 1, 1]"
proof -
  have z: "\<forall>n. seq_sum (replicate n (Fin 0)) = Fin 0" by (simp add: seq_sum_zeros)
  have V: "Var_V seq_sum [Fin 2, Fin 0] = Inr (Fin 1)"
    by (simp add: Var_V_def seq_sum_def round64_0 round64_numeral)
  have B: "to_bin seq_sum 7 docstring_mapper [Fin 2, Fin 0] = Inr [1, 1, 0, 1, 1]"
    by (simp add: to_bin_def to_bin_with_def docstring_mapper_def Exp_V_def V seq_sum_def
       broadcastable_def np_mul_row_def set_where_def fsub_def round64_0 round64_numeral
       round64_neg_numeral)
  note T = to_bin_divisor [OF z, of "[Fin 2, Fin 0]" fdiv
            "\<lambda>x S. if S = Fin 1 then fdiv x S else NaN" 7 docstring_mapper 2 1 1]
  from T have frame: "(\<forall>S x. Var_V seq_sum [Fin 2, Fin 0] = Inr S
            \<longrightarrow> fdiv x S = (if S = Fin 1 then fdiv x S else NaN))
        \<longrightarrow> to_bin_with fdiv seq_sum 7 docstring_mapper [Fin 2, Fin 0]
             = to_bin_with (\<lambda>x S. if S = Fin 1 then fdiv x S else NaN) seq_sum 7
                 docstring_mapper [Fin 2, Fin 0]"
    by (rule conjunct1)
  from T have zV: "Var_V seq_sum (replicate 2 (Fin 0)) = Inr (Fin 0)"
    by (elim conjE)
  from T have zB: "broadcastable (mapper_cols docstring_mapper) 2
        \<longrightarrow> to_bin seq_sum 7 docstring_mapper (replicate 2 (Fin 0))
              = Inr (replicate (length (mapper docstring_mapper)) 7)"
    by (elim conjE)
  have "to_bin_with fdiv seq_sum 7 docstring_mapper [Fin 2, Fin 0]
         = to_bin_with (\<lambda>x S. if S = Fin 1 then fdiv x S else NaN) seq_sum 7
             docstring_mapper [Fin 2, Fin 0]"
    using frame by (simp add: V)
  then have F: "to_bin_with (\<lambda>x S. if S = Fin 1 then fdiv x S else NaN) seq_sum 7
             docstring_mapper [Fin 2, Fin 0] = Inr [1, 1, 0, 1, 1]"
    using B by (simp add: to_bin_def)
  have Z: "to_bin seq_sum 7 docstring_mapper (replicate 2 (Fin 0)) = Inr [7, 7, 7, 7, 7]"
    using zB by (simp add: docstring_mapper_def broadcastable_def)
  show ?thesis using zV Z V F by (intro conjI)
qed

end
